theory Spec2Isabelle
  imports Main
begin

section \<open>JavaScript strings\<close>

text \<open>
  The front end is one React component, \<^verbatim>\<open>App\<close>, and one pure helper,
  \<^verbatim>\<open>getDisplayName\<close>, both in \<^verbatim>\<open>ollama-server/frontend/src/App.js\<close>.

  Strings are modelled as \<^typ>\<open>string\<close>: a character is a code unit below 256, and
  a string with a code unit beyond is not a value of the type. The class
  \<^verbatim>\<open>[a-zA-Z0-9]\<close> holds the ASCII letters and digits. \<open>toLowerCase\<close> and
  \<open>toUpperCase\<close> map the 26 ASCII letters. JavaScript also maps letters of the upper
  half, to code units of the upper half or beyond: no key of the alias table holds one, and
  the formatting branch capitalises only words of ASCII letters and digits, so the display
  name is the same. \<open>trim\<close> removes the white space and line terminators below 256.
\<close>

definition is_upper :: "char \<Rightarrow> bool" where
  "is_upper c = (let n = (of_char c :: nat) in 65 \<le> n \<and> n \<le> 90)"

definition is_lower :: "char \<Rightarrow> bool" where
  "is_lower c = (let n = (of_char c :: nat) in 97 \<le> n \<and> n \<le> 122)"

definition is_digit :: "char \<Rightarrow> bool" where
  "is_digit c = (let n = (of_char c :: nat) in 48 \<le> n \<and> n \<le> 57)"

text \<open>The complement of the regular expression \<^verbatim>\<open>/[^a-zA-Z0-9]/\<close>.\<close>

definition is_alnum :: "char \<Rightarrow> bool" where
  "is_alnum c = (is_lower c \<or> is_upper c \<or> is_digit c)"

definition toLowerCase_char :: "char \<Rightarrow> char" where
  "toLowerCase_char c = (if is_upper c then char_of ((of_char c :: nat) + 32) else c)"

definition toUpperCase_char :: "char \<Rightarrow> char" where
  "toUpperCase_char c = (if is_lower c then char_of ((of_char c :: nat) - 32) else c)"

definition toLowerCase :: "string \<Rightarrow> string" where
  "toLowerCase s = map toLowerCase_char s"

definition toUpperCase :: "string \<Rightarrow> string" where
  "toUpperCase s = map toUpperCase_char s"

fun startsWith :: "string \<Rightarrow> string \<Rightarrow> bool" where
  "startsWith s [] = True"
| "startsWith [] (k # ks) = False"
| "startsWith (c # cs) (k # ks) = (c = k \<and> startsWith cs ks)"

text \<open>\<^verbatim>\<open>s.includes(k)\<close>: \<open>k\<close> occurs in \<open>s\<close> as a contiguous substring.\<close>

fun js_includes :: "string \<Rightarrow> string \<Rightarrow> bool" where
  "js_includes [] k = (k = [])"
| "js_includes (c # cs) k = (startsWith (c # cs) k \<or> js_includes cs k)"

text \<open>
  \<^verbatim>\<open>s.split(sep)\<close> for a separator that matches exactly one character, given as the
  predicate \<open>P\<close> on that character; the empty string splits into one empty piece.
\<close>

fun js_split :: "(char \<Rightarrow> bool) \<Rightarrow> string \<Rightarrow> string list" where
  "js_split P [] = [[]]"
| "js_split P (c # cs) =
     (if P c then [] # js_split P cs
      else (case js_split P cs of [] \<Rightarrow> [[c]] | w # ws \<Rightarrow> (c # w) # ws))"

fun js_join :: "string \<Rightarrow> string list \<Rightarrow> string" where
  "js_join sep [] = []"
| "js_join sep [w] = w"
| "js_join sep (w # v # ws) = w @ sep @ js_join sep (v # ws)"

text \<open>
  The white space and line terminators that \<^verbatim>\<open>trim\<close> removes, below 256: tab, LF, VT,
  FF, CR, space and the no-break space \<open>U+00A0\<close>.
\<close>

definition is_space :: "char \<Rightarrow> bool" where
  "is_space c = (let n = (of_char c :: nat) in (9 \<le> n \<and> n \<le> 13) \<or> n = 32 \<or> n = 160)"

definition js_trim :: "string \<Rightarrow> string" where
  "js_trim s = rev (dropWhile is_space (rev (dropWhile is_space s)))"

section \<open>Display names\<close>

text \<open>
  \<^verbatim>\<open>modelMap\<close>, in the insertion order that \<^verbatim>\<open>for (const key in modelMap)\<close> visits.
\<close>

definition modelMap :: "(string \<times> string) list" where
  "modelMap =
     [(''mistral:latest'', ''Mistral''),
      (''deepseek-r1:latest'', ''DeepSeek R1''),
      (''llama3.2:latest'', ''Llama 3.2''),
      (''gemma2:2b'', ''Gemma 2'')]"

text \<open>The loop over the known models: the first key contained in the lowercased name wins.\<close>

fun known_model :: "string \<Rightarrow> (string \<times> string) list \<Rightarrow> string option" where
  "known_model modelName [] = None"
| "known_model modelName ((key, v) # rest) =
     (if js_includes (toLowerCase modelName) (toLowerCase key) then Some v
      else known_model modelName rest)"

text \<open>\<^verbatim>\<open>word.charAt(0).toUpperCase() + word.slice(1).toLowerCase()\<close>\<close>

definition capitalize :: "string \<Rightarrow> string" where
  "capitalize word = (case word of [] \<Rightarrow> [] | c # cs \<Rightarrow> toUpperCase_char c # toLowerCase cs)"

definition getDisplayName :: "string \<Rightarrow> string" where
  "getDisplayName modelName =
     (case known_model modelName modelMap of
        Some v \<Rightarrow> v
      | None \<Rightarrow>
          (case js_split (\<lambda>c. c = CHR '':'') modelName of
             [] \<Rightarrow> modelName
           | p # _ \<Rightarrow> js_join '' '' (map capitalize (js_split (\<lambda>c. \<not> is_alnum c) p))))"

text \<open>
  An input is unmapped when the loop finds no key; a word is title-cased when it does not
  start with a lowercase letter and has no uppercase letter after its first character.
\<close>

definition unmapped :: "string \<Rightarrow> bool" where
  "unmapped s = (\<forall>(key, v)\<in>set modelMap. \<not> js_includes (toLowerCase s) (toLowerCase key))"

definition title_cased :: "string \<Rightarrow> bool" where
  "title_cased w = (case w of [] \<Rightarrow> True | c # cs \<Rightarrow> \<not> is_lower c \<and> (\<forall>d\<in>set cs. \<not> is_upper d))"

text \<open>The words of the formatting branch: the text before the first colon, split and capitalised.\<close>

definition words_of :: "string \<Rightarrow> string list" where
  "words_of s =
     map capitalize (js_split (\<lambda>c. \<not> is_alnum c) (takeWhile (\<lambda>c. c \<noteq> CHR '':'') s))"

section \<open>Parsed JSON\<close>

text \<open>
  The values \<^verbatim>\<open>JSON.parse\<close> produces, and \<^verbatim>\<open>undefined\<close> for a property that is not
  there. A number is carried as the decimal text JavaScript prints for it, which is all this
  program does with one. An object is the list of its members in the order of the text; of
  two members with one key \<^verbatim>\<open>JSON.parse\<close> keeps the later, and \<open>js_prop\<close> reads the list
  that way.
\<close>

datatype jsval =
    JUndefined
  | JNull
  | JBool bool
  | JNum string
  | JStr string
  | JArr "jsval list"
  | JObj "(string \<times> jsval) list"

text \<open>
  The string a value becomes in \<^verbatim>\<open>prev + data.content\<close> and in a template literal, or
  \<open>None\<close> when the conversion raises a TypeError. A parsed object takes
  \<^verbatim>\<open>valueOf\<close> and \<^verbatim>\<open>toString\<close> from its own properties first: an own
  \<^verbatim>\<open>toString\<close> is a JSON value, which cannot be called, and then no method gives a
  primitive; without one, \<^verbatim>\<open>Object.prototype.toString\<close> answers. An array joins the
  strings of its elements with commas, \<^verbatim>\<open>null\<close> and \<^verbatim>\<open>undefined\<close> elements as
  empty text, and raises when an element does.
\<close>

fun js_to_string :: "jsval \<Rightarrow> string option" where
  "js_to_string JUndefined = Some ''undefined''"
| "js_to_string JNull = Some ''null''"
| "js_to_string (JBool b) = Some (if b then ''true'' else ''false'')"
| "js_to_string (JNum n) = Some n"
| "js_to_string (JStr s) = Some s"
| "js_to_string (JArr xs) =
     map_option (js_join '','')
       (those (map (\<lambda>x. if x = JNull \<or> x = JUndefined then Some [] else js_to_string x) xs))"
| "js_to_string (JObj kvs) =
     (if map_of kvs ''toString'' = None then Some ''[object Object]'' else None)"

text \<open>Reading a property of \<^verbatim>\<open>null\<close> or \<^verbatim>\<open>undefined\<close> raises a TypeError.\<close>

definition nullish :: "jsval \<Rightarrow> bool" where
  "nullish v = (v = JNull \<or> v = JUndefined)"

text \<open>
  \<^verbatim>\<open>data.k\<close> for a value that is not nullish and a key \<open>k\<close> among \<^verbatim>\<open>type\<close>,
  \<^verbatim>\<open>content\<close> and \<^verbatim>\<open>histories\<close>, none of which strings, numbers, booleans or arrays
  have.
\<close>

fun js_prop :: "jsval \<Rightarrow> string \<Rightarrow> jsval" where
  "js_prop (JObj kvs) k = (case map_of (rev kvs) k of Some v \<Rightarrow> v | None \<Rightarrow> JUndefined)"
| "js_prop v k = JUndefined"

section \<open>The state of the component\<close>

datatype msg_type = User | Assistant | System

record message =
  m_type :: msg_type
  m_content :: string
  m_model :: "string option"

datatype ready_state = CONNECTING | OPEN | CLOSING | CLOSED

text \<open>A frame handed to \<^verbatim>\<open>socket.send\<close>: \<^verbatim>\<open>{type: 'message', content: c}\<close>.\<close>

datatype out_frame = OutMessage string

text \<open>
  A socket the connection effect created. Its \<^verbatim>\<open>onopen\<close> closure reads the
  \<^verbatim>\<open>selectedModel\<close> and the \<^verbatim>\<open>initialConnectionMade\<close> of the render that created it,
  so both are stored with the socket.
\<close>

record websocket =
  ws_selectedModel :: string
  ws_initialConnectionMade :: bool
  readyState :: ready_state
  ws_sent :: "out_frame list"

text \<open>
  The \<^verbatim>\<open>useState\<close> cells of \<^verbatim>\<open>App\<close>, then the sockets created so far and
  \<^verbatim>\<open>socketRef.current\<close> as an index into them.
\<close>

record app_state =
  models :: "string list"
  selectedModel :: string
  messages :: "message list"
  inputMessage :: string
  isConnected :: bool
  isStreaming :: bool
  currentResponse :: string
  initialConnectionMade :: bool
  chatHistories :: jsval
  showHistoryModal :: bool
  sockets :: "websocket list"
  socketRef :: "nat option"

definition initial_state :: app_state where
  "initial_state =
     \<lparr>models = [], selectedModel = [], messages = [], inputMessage = [],
      isConnected = False, isStreaming = False, currentResponse = [],
      initialConnectionMade = False, chatHistories = JArr [], showHistoryModal = False,
      sockets = [], socketRef = None\<rparr>"

section \<open>Fetching the models\<close>

text \<open>
  What the \<^verbatim>\<open>try\<close> block of \<^verbatim>\<open>fetchModels\<close> meets: \<^verbatim>\<open>fetch\<close> rejects (the network
  failed), \<^verbatim>\<open>response.json()\<close> rejects (the body is no JSON),
  \<^verbatim>\<open>data.models.reverse()\<close> raises a TypeError (no array under \<^verbatim>\<open>models\<close>), or the
  body lists the model identifiers, strings by the contract of \<^verbatim>\<open>/api/models\<close>.
\<close>

datatype models_response = FetchFailed | ParseFailed | NoModelList | ModelList "string list"

definition fetchModels :: "models_response \<Rightarrow> app_state \<Rightarrow> app_state" where
  "fetchModels r s =
     (case r of
        ModelList ms \<Rightarrow>
          (case rev ms of
             [] \<Rightarrow> s
           | m # _ \<Rightarrow> s\<lparr>models := rev ms, selectedModel := m\<rparr>)
      | _ \<Rightarrow>
          s\<lparr>messages := messages s @
             [\<lparr>m_type = System,
               m_content = ''Error connecting to the server. Please ensure the backend is running.'',
               m_model = None\<rparr>]\<rparr>)"

section \<open>Effects\<close>

text \<open>The effect for the end of streaming.\<close>

definition streaming_end_effect :: "app_state \<Rightarrow> app_state" where
  "streaming_end_effect s =
     (if \<not> isStreaming s \<and> currentResponse s \<noteq> [] then
        s\<lparr>messages := messages s @
             [\<lparr>m_type = Assistant, m_content = currentResponse s,
               m_model = Some (selectedModel s)\<rparr>],
          currentResponse := []\<rparr>
      else s)"

text \<open>\<^verbatim>\<open>if (x.readyState === WebSocket.OPEN) x.close()\<close> on \<^verbatim>\<open>socketRef.current\<close>.\<close>

definition close_if_open :: "app_state \<Rightarrow> app_state" where
  "close_if_open s =
     (case socketRef s of
        None \<Rightarrow> s
      | Some i \<Rightarrow>
          (if i < length (sockets s) \<and> readyState (sockets s ! i) = OPEN
           then s\<lparr>sockets := (sockets s)[i := (sockets s ! i)\<lparr>readyState := CLOSING\<rparr>]\<rparr>
           else s))"

text \<open>
  The connection effect, run when \<^verbatim>\<open>selectedModel\<close> has changed. First the clean-up that
  the previous run returned, which exists when that run had a model and then closes the
  socket that run stored in \<^verbatim>\<open>socketRef\<close>; then the body.
\<close>

definition connect_effect :: "string \<Rightarrow> app_state \<Rightarrow> app_state" where
  "connect_effect previous s =
     (let s1 = (if previous \<noteq> [] then close_if_open s else s) in
      if selectedModel s1 \<noteq> [] then
        (let s2 = close_if_open s1;
             socket = \<lparr>ws_selectedModel = selectedModel s2,
                       ws_initialConnectionMade = initialConnectionMade s2,
                       readyState = CONNECTING, ws_sent = []\<rparr>
         in s2\<lparr>sockets := sockets s2 @ [socket], socketRef := Some (length (sockets s2))\<rparr>)
      else s1)"

text \<open>
  One render after the state went from \<open>prev\<close> to \<open>s\<close>: each effect runs when one of its
  dependencies changed.
\<close>

definition rerender :: "app_state \<Rightarrow> app_state \<Rightarrow> app_state" where
  "rerender prev s =
     (let s1 = (if isStreaming s \<noteq> isStreaming prev \<or> currentResponse s \<noteq> currentResponse prev
                   \<or> selectedModel s \<noteq> selectedModel prev
                then streaming_end_effect s else s)
      in if selectedModel s \<noteq> selectedModel prev then connect_effect (selectedModel prev) s1
         else s1)"

section \<open>Handlers\<close>

definition greeting :: "string \<Rightarrow> message" where
  "greeting m =
     \<lparr>m_type = Assistant,
      m_content = ''Hello there! I am '' @ getDisplayName m @ ''. How can I assist you today?'',
      m_model = Some m\<rparr>"

definition onopen :: "websocket \<Rightarrow> app_state \<Rightarrow> app_state" where
  "onopen socket s =
     (let s1 = s\<lparr>isConnected := True\<rparr> in
      if \<not> ws_initialConnectionMade socket then
        s1\<lparr>messages := messages s1 @ [greeting (ws_selectedModel socket)],
           initialConnectionMade := True\<rparr>
      else s1)"

text \<open>
  \<^verbatim>\<open>onmessage\<close>, given what \<^verbatim>\<open>JSON.parse(event.data)\<close> did: \<open>None\<close> when it raised a
  SyntaxError. For the payload \<^verbatim>\<open>null\<close> the first \<^verbatim>\<open>data.type\<close> raises a TypeError, before
  any update. The \<^verbatim>\<open>catch\<close> logs and returns in both cases.

  The result is the state with the updates applied, or \<open>None\<close>: the updaters
  \<^verbatim>\<open>prev => prev + data.content\<close> and the one with the template literal run when React
  renders, outside the \<^verbatim>\<open>try\<close>, so a content that cannot be converted to a string raises
  there and React unmounts the component.
\<close>

definition onmessage :: "jsval option \<Rightarrow> app_state \<Rightarrow> app_state option" where
  "onmessage parsed s =
     (case parsed of
        None \<Rightarrow> Some s
      | Some data \<Rightarrow>
          if nullish data then Some s
          else if js_prop data ''type'' = JStr ''stream_start'' then
            Some (s\<lparr>isStreaming := True, currentResponse := []\<rparr>)
          else if js_prop data ''type'' = JStr ''stream'' then
            (case js_to_string (js_prop data ''content'') of
               None \<Rightarrow> None
             | Some text \<Rightarrow> Some (s\<lparr>currentResponse := currentResponse s @ text\<rparr>))
          else if js_prop data ''type'' = JStr ''stream_end'' then
            Some (s\<lparr>isStreaming := False\<rparr>)
          else if js_prop data ''type'' = JStr ''error'' then
            (case js_to_string (js_prop data ''content'') of
               None \<Rightarrow> None
             | Some text \<Rightarrow>
                 Some (s\<lparr>isStreaming := False,
                         messages := messages s @
                           [\<lparr>m_type = System, m_content = ''Error: '' @ text,
                             m_model = None\<rparr>]\<rparr>))
          else if js_prop data ''type'' = JStr ''chat_histories'' then
            Some (s\<lparr>chatHistories := js_prop data ''histories''\<rparr>)
          else Some s)"

definition onclose :: "app_state \<Rightarrow> app_state" where
  "onclose s = s\<lparr>isConnected := False\<rparr>"

definition onerror :: "app_state \<Rightarrow> app_state" where
  "onerror s = s\<lparr>isConnected := False\<rparr>"

definition handleModelChange :: "string \<Rightarrow> app_state \<Rightarrow> app_state" where
  "handleModelChange v s = s\<lparr>selectedModel := v\<rparr>"

text \<open>
  \<^verbatim>\<open>socketRef.current.send(frame)\<close>: \<open>None\<close> when it raises (no socket yet, or one still
  connecting); an open socket transmits the frame, a closing or closed one drops it.
\<close>

definition ws_send :: "out_frame \<Rightarrow> app_state \<Rightarrow> app_state option" where
  "ws_send frame s =
     (case socketRef s of
        None \<Rightarrow> None
      | Some i \<Rightarrow>
          (if i < length (sockets s) then
             (case readyState (sockets s ! i) of
                CONNECTING \<Rightarrow> None
              | OPEN \<Rightarrow>
                  Some (s\<lparr>sockets := (sockets s)
                          [i := (sockets s ! i)\<lparr>ws_sent := ws_sent (sockets s ! i) @ [frame]\<rparr>]\<rparr>)
              | _ \<Rightarrow> Some s)
           else None))"

definition handleSendMessage :: "app_state \<Rightarrow> app_state" where
  "handleSendMessage s =
     (if js_trim (inputMessage s) = [] \<or> \<not> isConnected s \<or> isStreaming s then s
      else
        (let s1 = s\<lparr>messages := messages s @
                     [\<lparr>m_type = User, m_content = inputMessage s, m_model = None\<rparr>]\<rparr>
         in case ws_send (OutMessage (inputMessage s)) s1 of
              None \<Rightarrow> s1
            | Some s2 \<Rightarrow> s2\<lparr>inputMessage := []\<rparr>))"

section \<open>Events\<close>

text \<open>
  What reaches the component: the answer to the request for the models that it made when it
  mounted, the user changing the selection, typing or submitting, and the events of a socket,
  named by its index. A socket opens once, from \<open>CONNECTING\<close>; its close event leaves it
  \<open>CLOSED\<close>. The message handler is the same for every socket and reads nothing of it.
  Each event is handled to the end, effects included, before the next one arrives. The
  outcome of an event is the next state, or \<open>None\<close> when the render raised and the
  component is gone; no later event brings it back.
\<close>

datatype event =
    ModelsFetched models_response
  | ModelChange string
  | InputChange string
  | Submit
  | SocketOpen nat
  | SocketMessage "jsval option"
  | SocketClose nat
  | SocketError nat

fun handle :: "event \<Rightarrow> app_state \<Rightarrow> app_state option" where
  "handle (ModelsFetched r) s = Some (fetchModels r s)"
| "handle (ModelChange v) s = Some (handleModelChange v s)"
| "handle (InputChange v) s = Some (s\<lparr>inputMessage := v\<rparr>)"
| "handle Submit s = Some (handleSendMessage s)"
| "handle (SocketOpen i) s =
     Some (if i < length (sockets s) \<and> readyState (sockets s ! i) = CONNECTING
           then onopen (sockets s ! i)
                  (s\<lparr>sockets := (sockets s)[i := (sockets s ! i)\<lparr>readyState := OPEN\<rparr>]\<rparr>)
           else s)"
| "handle (SocketMessage parsed) s = onmessage parsed s"
| "handle (SocketClose i) s =
     Some (if i < length (sockets s) \<and> readyState (sockets s ! i) \<noteq> CLOSED
           then onclose
                  (s\<lparr>sockets := (sockets s)[i := (sockets s ! i)\<lparr>readyState := CLOSED\<rparr>]\<rparr>)
           else s)"
| "handle (SocketError i) s = Some (if i < length (sockets s) then onerror s else s)"

definition dispatch :: "event \<Rightarrow> app_state \<Rightarrow> app_state option" where
  "dispatch ev s = map_option (rerender s) (handle ev s)"

fun run :: "event list \<Rightarrow> app_state \<Rightarrow> app_state option" where
  "run [] s = Some s"
| "run (ev # evs) s = (case dispatch ev s of None \<Rightarrow> None | Some s' \<Rightarrow> run evs s')"

section \<open>Frames of the socket protocol\<close>

definition stream_start_frame :: "jsval option" where
  "stream_start_frame = Some (JObj [(''type'', JStr ''stream_start'')])"

definition stream_frame :: "string \<Rightarrow> jsval option" where
  "stream_frame d = Some (JObj [(''type'', JStr ''stream''), (''content'', JStr d)])"

definition stream_end_frame :: "jsval option" where
  "stream_end_frame = Some (JObj [(''type'', JStr ''stream_end'')])"

definition error_frame :: "string \<Rightarrow> jsval option" where
  "error_frame e = Some (JObj [(''type'', JStr ''error''), (''content'', JStr e)])"

text \<open>
  The type of an inbound frame as the handler sees it; whether the content of a
  \<^verbatim>\<open>stream\<close> or \<^verbatim>\<open>error\<close> frame can be converted to a string; and the text the frame
  then carries.
\<close>

definition frame_type :: "jsval option \<Rightarrow> string option" where
  "frame_type f =
     (case f of
        None \<Rightarrow> None
      | Some data \<Rightarrow> (case js_prop data ''type'' of JStr t \<Rightarrow> Some t | _ \<Rightarrow> None))"

definition frame_converts :: "jsval option \<Rightarrow> bool" where
  "frame_converts f =
     (case f of
        None \<Rightarrow> True
      | Some data \<Rightarrow>
          (frame_type f = Some ''stream'' \<or> frame_type f = Some ''error'')
            \<longrightarrow> js_to_string (js_prop data ''content'') \<noteq> None)"

definition frame_text :: "jsval option \<Rightarrow> string" where
  "frame_text f =
     (case f of
        None \<Rightarrow> []
      | Some data \<Rightarrow>
          (case js_to_string (js_prop data ''content'') of None \<Rightarrow> [] | Some text \<Rightarrow> text))"

text \<open>
  The window that is open after the frames \<open>fs\<close>: the frames after the most recent
  \<^verbatim>\<open>stream_start\<close>, when no \<^verbatim>\<open>stream_end\<close> or \<^verbatim>\<open>error\<close> has arrived since. The text of
  the window is that of its \<^verbatim>\<open>stream\<close> frames, in arrival order.
\<close>

definition after_last_start :: "jsval option list \<Rightarrow> jsval option list" where
  "after_last_start fs = rev (takeWhile (\<lambda>f. frame_type f \<noteq> Some ''stream_start'') (rev fs))"

definition open_window :: "jsval option list \<Rightarrow> jsval option list option" where
  "open_window fs =
     (if (\<exists>f\<in>set fs. frame_type f = Some ''stream_start'') \<and>
         (\<forall>f\<in>set (after_last_start fs).
            frame_type f \<noteq> Some ''stream_end'' \<and> frame_type f \<noteq> Some ''error'')
      then Some (after_last_start fs) else None)"

definition window_text :: "jsval option list \<Rightarrow> string" where
  "window_text fs =
     (case open_window fs of
        None \<Rightarrow> []
      | Some w \<Rightarrow> concat (map frame_text (filter (\<lambda>f. frame_type f = Some ''stream'') w)))"

text \<open>
  The window as the specification words it: the \<^verbatim>\<open>stream\<close> frames after the most recent
  \<^verbatim>\<open>stream_start\<close> and before the next \<^verbatim>\<open>stream_end\<close> or \<^verbatim>\<open>error\<close>, whether or not
  that end has arrived.
\<close>

definition claimed_window_text :: "jsval option list \<Rightarrow> string" where
  "claimed_window_text fs =
     (if \<exists>f\<in>set fs. frame_type f = Some ''stream_start'' then
        concat (map frame_text (filter (\<lambda>f. frame_type f = Some ''stream'')
          (takeWhile (\<lambda>f. frame_type f \<noteq> Some ''stream_end'' \<and> frame_type f \<noteq> Some ''error'')
             (after_last_start fs))))
      else [])"

text \<open>One whole reply: \<^verbatim>\<open>stream_start\<close>, the deltas \<open>ds\<close>, \<^verbatim>\<open>stream_end\<close>.\<close>

definition stream_events :: "string list \<Rightarrow> event list" where
  "stream_events ds =
     SocketMessage stream_start_frame # map (\<lambda>d. SocketMessage (stream_frame d)) ds
       @ [SocketMessage stream_end_frame]"

section \<open>Sessions\<close>

text \<open>
  A session that fetched two models, selected the last listed and saw its socket open; and
  the same session after the user sent \<open>hi\<close> and the reply began with \<open>par\<close>.
\<close>

definition connected_idle :: app_state where
  "connected_idle =
     \<lparr>models = [''mistral:latest'', ''gemma2:2b''], selectedModel = ''mistral:latest'',
      messages =
        [\<lparr>m_type = Assistant,
          m_content = ''Hello there! I am Mistral. How can I assist you today?'',
          m_model = Some ''mistral:latest''\<rparr>],
      inputMessage = [], isConnected = True, isStreaming = False, currentResponse = [],
      initialConnectionMade = True, chatHistories = JArr [], showHistoryModal = False,
      sockets =
        [\<lparr>ws_selectedModel = ''mistral:latest'', ws_initialConnectionMade = False,
          readyState = OPEN, ws_sent = []\<rparr>],
      socketRef = Some 0\<rparr>"

definition mid_stream :: app_state where
  "mid_stream =
     connected_idle
       \<lparr>messages := messages connected_idle @
          [\<lparr>m_type = User, m_content = ''hi'', m_model = None\<rparr>],
        isStreaming := True, currentResponse := ''par'',
        sockets :=
          [\<lparr>ws_selectedModel = ''mistral:latest'', ws_initialConnectionMade = False,
            readyState = OPEN, ws_sent = [OutMessage ''hi'']\<rparr>]\<rparr>"

text \<open>
  The first session before its socket opened, and after a second model was selected.
\<close>

definition awaiting_open :: app_state where
  "awaiting_open =
     initial_state
       \<lparr>models := [''mistral:latest'', ''gemma2:2b''], selectedModel := ''mistral:latest'',
        sockets :=
          [\<lparr>ws_selectedModel = ''mistral:latest'', ws_initialConnectionMade = False,
            readyState = CONNECTING, ws_sent = []\<rparr>],
        socketRef := Some 0\<rparr>"

definition second_model_selected :: app_state where
  "second_model_selected =
     connected_idle
       \<lparr>selectedModel := ''gemma2:2b'',
        sockets :=
          [\<lparr>ws_selectedModel = ''mistral:latest'', ws_initialConnectionMade = False,
            readyState = CLOSING, ws_sent = []\<rparr>,
           \<lparr>ws_selectedModel = ''gemma2:2b'', ws_initialConnectionMade = True,
            readyState = CONNECTING, ws_sent = []\<rparr>],
        socketRef := Some 1\<rparr>"

section \<open>Characters and strings\<close>

lemma of_char_lower: "(of_char (toLowerCase_char c) :: nat) = (if is_upper c then of_char c + 32 else of_char c)"
  by (simp add: toLowerCase_char_def is_upper_def Let_def)
lemma of_char_upper: "(of_char (toUpperCase_char c) :: nat) = (if is_lower c then of_char c - 32 else of_char c)"
  by (auto simp add: toUpperCase_char_def is_lower_def Let_def)

lemma lower_idem: "toLowerCase_char (toLowerCase_char c) = toLowerCase_char c"
  by (simp add: toLowerCase_char_def is_upper_def Let_def)
lemma upper_idem: "toUpperCase_char (toUpperCase_char c) = toUpperCase_char c"
proof -
  have "(of_char (toUpperCase_char (toUpperCase_char c)) :: nat) = of_char (toUpperCase_char c)"
    by (auto simp: of_char_upper is_lower_def Let_def)
  then show ?thesis by (simp only: of_char_eq_iff)
qed
lemma alnum_lower: "is_alnum (toLowerCase_char c) = is_alnum c"
  by (auto simp add: is_alnum_def is_lower_def is_upper_def is_digit_def Let_def of_char_lower)
lemma alnum_upper: "is_alnum (toUpperCase_char c) = is_alnum c"
  by (auto simp add: is_alnum_def is_lower_def is_upper_def is_digit_def Let_def of_char_upper)
lemma not_lower_upper: "\<not> is_lower (toUpperCase_char c)"
  by (auto simp add: is_lower_def Let_def of_char_upper)
lemma not_upper_lower: "\<not> is_upper (toLowerCase_char c)"
  by (auto simp add: is_upper_def Let_def of_char_lower)
lemma space_not_alnum: "\<not> is_alnum (CHR '' '')"
  by (simp add: is_alnum_def is_lower_def is_upper_def is_digit_def)
lemma colon_not_alnum: "\<not> is_alnum (CHR '':'')"
  by (simp add: is_alnum_def is_lower_def is_upper_def is_digit_def)
lemma lower_colon: "toLowerCase_char c = CHR '':'' \<longleftrightarrow> c = CHR '':''"
proof -
  have "toLowerCase_char c = CHR '':'' \<longleftrightarrow> (of_char (toLowerCase_char c) :: nat) = of_char (CHR '':'')"
    by (simp only: of_char_eq_iff)
  also have "\<dots> \<longleftrightarrow> (of_char c :: nat) = of_char (CHR '':'')"
    by (auto simp: of_char_lower is_upper_def Let_def)
  finally show ?thesis by (simp only: of_char_eq_iff)
qed

lemma js_split_not_Nil: "js_split P s \<noteq> []"
  by (induction s) (auto split: list.splits)

lemma js_split_hd: "hd (js_split P s) = takeWhile (\<lambda>c. \<not> P c) s"
  by (induction s) (auto split: list.splits simp: js_split_not_Nil)

lemma js_split_pieces: "\<forall>w\<in>set (js_split P s). \<forall>c\<in>set w. \<not> P c"
proof (induction s)
  case Nil
  then show ?case by simp
next
  case (Cons a s)
  show ?case
  proof (cases "P a")
    case True
    with Cons show ?thesis by simp
  next
    case False
    obtain w ws where ws: "js_split P s = w # ws"
      using js_split_not_Nil [of P s] by (cases "js_split P s") auto
    with Cons False show ?thesis by auto
  qed
qed

lemma js_split_no_sep: "\<forall>c\<in>set s. \<not> P c \<Longrightarrow> js_split P s = [s]"
  by (induction s) auto

lemma js_split_append_sep:
  "\<forall>c\<in>set w. \<not> P c \<Longrightarrow> P sep \<Longrightarrow> js_split P (w @ sep # rest) = w # js_split P rest"
  by (induction w) auto

lemma js_split_join:
  "P sep \<Longrightarrow> ws \<noteq> [] \<Longrightarrow> \<forall>w\<in>set ws. \<forall>c\<in>set w. \<not> P c \<Longrightarrow> js_split P (js_join [sep] ws) = ws"
proof (induction "[sep]" ws rule: js_join.induct)
  case 1
  then show ?case by simp
next
  case (2 w)
  then show ?case by (simp add: js_split_no_sep)
next
  case (3 w v ws)
  then show ?case by (simp add: js_split_append_sep)
qed

lemma set_js_join: "set (js_join sep ws) \<subseteq> set sep \<union> \<Union> (set ` set ws)"
  by (induction sep ws rule: js_join.induct) auto

lemma js_join_Nil_iff: "js_join [sep] ws = [] \<longleftrightarrow> ws = [] \<or> ws = [[]]"
  by (induction "[sep]" ws rule: js_join.induct) auto

lemma startsWith_set: "startsWith s k \<Longrightarrow> set k \<subseteq> set s"
  by (induction s k rule: startsWith.induct) auto

lemma js_includes_set: "js_includes s k \<Longrightarrow> set k \<subseteq> set s"
proof (induction s k rule: js_includes.induct)
  case (1 k)
  then show ?case by simp
next
  case (2 c cs k)
  from "2.prems" have "startsWith (c # cs) k \<or> js_includes cs k" by simp
  then show ?case
  proof
    assume "startsWith (c # cs) k"
    then show ?thesis by (rule startsWith_set)
  next
    assume "js_includes cs k"
    then have "set k \<subseteq> set cs" by (rule "2.IH")
    then show ?thesis by auto
  qed
qed

lemma capitalize_alnum: "\<forall>c\<in>set w. is_alnum c \<Longrightarrow> \<forall>c\<in>set (capitalize w). is_alnum c"
  by (cases w) (auto simp: capitalize_def toLowerCase_def alnum_lower alnum_upper)

lemma capitalize_idem: "capitalize (capitalize w) = capitalize w"
  by (cases w) (auto simp: capitalize_def toLowerCase_def lower_idem upper_idem)

lemma capitalize_title_cased: "title_cased (capitalize w)"
  by (cases w) (auto simp: capitalize_def title_cased_def toLowerCase_def not_lower_upper not_upper_lower)

lemma capitalize_Nil_iff: "capitalize w = [] \<longleftrightarrow> w = []"
  by (cases w) (auto simp: capitalize_def)

lemma known_model_None_iff: "known_model s m = None \<longleftrightarrow> (\<forall>(key, v)\<in>set m. \<not> js_includes (toLowerCase s) (toLowerCase key))"
proof (induction m)
  case Nil
  then show ?case by simp
next
  case (Cons kv m)
  obtain key v where kv: "kv = (key, v)" by (cases kv)
  show ?case
    using Cons.IH by (simp add: kv)
qed

lemma unmapped_iff: "unmapped s \<longleftrightarrow> known_model s modelMap = None"
  by (simp add: unmapped_def known_model_None_iff)

lemma js_split_singleton_Nil_iff: "js_split P s = [[]] \<longleftrightarrow> s = []"
proof (cases s)
  case Nil
  then show ?thesis by simp
next
  case (Cons c cs)
  obtain w ws where "js_split P cs = w # ws"
    using js_split_not_Nil [of P cs] by (cases "js_split P cs") auto
  with Cons show ?thesis by simp
qed

lemma known_model_range: "known_model s m = Some v \<Longrightarrow> v \<in> snd ` set m"
  by (induction m) (auto split: if_splits)

lemma lower_keys:
  "toLowerCase ''mistral:latest'' = ''mistral:latest''"
  "toLowerCase ''deepseek-r1:latest'' = ''deepseek-r1:latest''"
  "toLowerCase ''llama3.2:latest'' = ''llama3.2:latest''"
  "toLowerCase ''gemma2:2b'' = ''gemma2:2b''"
  by code_simp+

lemma colon_in_keys: "\<forall>(key, v)\<in>set modelMap. CHR '':'' \<in> set (toLowerCase key)"
  by (simp add: modelMap_def lower_keys)

lemma colon_in_lower: "CHR '':'' \<in> set (toLowerCase s) \<longleftrightarrow> CHR '':'' \<in> set s"
proof (induction s)
  case Nil
  then show ?case by (simp add: toLowerCase_def)
next
  case (Cons a s)
  have "CHR '':'' = toLowerCase_char a \<longleftrightarrow> CHR '':'' = a"
    using lower_colon [of a] by metis
  with Cons show ?case by (simp add: toLowerCase_def)
qed

lemma known_model_no_colon:
  assumes "CHR '':'' \<notin> set s"
  shows "known_model s modelMap = None"
proof -
  have "\<not> js_includes (toLowerCase s) (toLowerCase key)" if "(key, v) \<in> set modelMap" for key v
  proof
    assume "js_includes (toLowerCase s) (toLowerCase key)"
    then have "set (toLowerCase key) \<subseteq> set (toLowerCase s)" by (rule js_includes_set)
    moreover from that colon_in_keys have "CHR '':'' \<in> set (toLowerCase key)" by blast
    ultimately have "CHR '':'' \<in> set (toLowerCase s)" by blast
    with assms show False by (simp add: colon_in_lower)
  qed
  then show ?thesis by (auto simp: known_model_None_iff)
qed

lemma getDisplayName_unmapped:
  assumes "known_model s modelMap = None"
  shows "getDisplayName s = js_join '' '' (words_of s)"
proof -
  obtain p ps where ps: "js_split (\<lambda>c. c = CHR '':'') s = p # ps"
    using js_split_not_Nil [of "\<lambda>c. c = CHR '':''" s] by (cases "js_split (\<lambda>c. c = CHR '':'') s") auto
  have "p = takeWhile (\<lambda>c. c \<noteq> CHR '':'') s"
    using js_split_hd [of "\<lambda>c. c = CHR '':''" s] ps by simp
  with assms ps show ?thesis by (simp add: getDisplayName_def words_of_def)
qed

lemma words_of_alnum: "\<forall>w\<in>set (words_of s). \<forall>c\<in>set w. is_alnum c"
proof
  fix w assume "w \<in> set (words_of s)"
  then obtain u where u: "u \<in> set (js_split (\<lambda>c. \<not> is_alnum c) (takeWhile (\<lambda>c. c \<noteq> CHR '':'') s))"
    and w: "w = capitalize u"
    by (auto simp: words_of_def)
  from u js_split_pieces [of "\<lambda>c. \<not> is_alnum c"] have "\<forall>c\<in>set u. is_alnum c" by blast
  then show "\<forall>c\<in>set w. is_alnum c" unfolding w by (rule capitalize_alnum)
qed

lemma words_of_not_Nil: "words_of s \<noteq> []"
  by (simp add: words_of_def js_split_not_Nil)

lemma fallback_chars: "\<forall>c\<in>set (js_join '' '' (words_of s)). is_alnum c \<or> c = CHR '' ''"
proof
  fix c assume "c \<in> set (js_join '' '' (words_of s))"
  with set_js_join [of "'' ''" "words_of s"]
  have "c \<in> set '' '' \<or> (\<exists>w\<in>set (words_of s). c \<in> set w)" by blast
  then show "is_alnum c \<or> c = CHR '' ''"
    using words_of_alnum [of s] by auto
qed

lemma fallback_fixed:
  "getDisplayName (js_join '' '' (words_of s)) = js_join '' '' (words_of s)"
proof -
  let ?r = "js_join '' '' (words_of s)"
  have nocolon: "\<forall>c\<in>set ?r. c \<noteq> CHR '':''"
    using fallback_chars [of s] colon_not_alnum by auto
  then have none: "known_model ?r modelMap = None"
    by (intro known_model_no_colon) auto
  have tw: "takeWhile (\<lambda>c. c \<noteq> CHR '':'') ?r = ?r"
    using nocolon by (simp add: takeWhile_eq_all_conv)
  have "js_split (\<lambda>c. \<not> is_alnum c) ?r = words_of s"
    using words_of_alnum [of s] words_of_not_Nil [of s] space_not_alnum
    by (intro js_split_join) auto
  then have "words_of ?r = map capitalize (words_of s)"
    by (simp add: words_of_def [of ?r] tw)
  also have "\<dots> = words_of s"
    by (simp add: words_of_def capitalize_idem)
  finally show ?thesis
    using getDisplayName_unmapped [OF none] by simp
qed

lemma alias_any_case:
  "\<forall>(key, v)\<in>set modelMap. toLowerCase s = key \<longrightarrow> getDisplayName s = v"
  by (auto simp: modelMap_def getDisplayName_def lower_keys)

lemma unmapped_shape:
  assumes "unmapped s"
  shows "(\<forall>c\<in>set (getDisplayName s). is_alnum c \<or> c = CHR '' '')"
    and "(\<forall>w\<in>set (js_split (\<lambda>c. c = CHR '' '') (getDisplayName s)). title_cased w)"
    and "(getDisplayName s = [] \<longleftrightarrow> takeWhile (\<lambda>c. c \<noteq> CHR '':'') s = [])"
proof -
  have g: "getDisplayName s = js_join '' '' (words_of s)"
    using assms by (simp add: unmapped_iff getDisplayName_unmapped)
  show "\<forall>c\<in>set (getDisplayName s). is_alnum c \<or> c = CHR '' ''"
    unfolding g by (rule fallback_chars)
  have "js_split (\<lambda>c. c = CHR '' '') (js_join '' '' (words_of s)) = words_of s"
    using words_of_alnum [of s] words_of_not_Nil [of s] space_not_alnum
    by (intro js_split_join) auto
  then show "\<forall>w\<in>set (js_split (\<lambda>c. c = CHR '' '') (getDisplayName s)). title_cased w"
    unfolding g by (auto simp: words_of_def capitalize_title_cased)
  show "getDisplayName s = [] \<longleftrightarrow> takeWhile (\<lambda>c. c \<noteq> CHR '':'') s = []"
    unfolding g
    by (simp add: js_join_Nil_iff words_of_not_Nil)
       (simp add: words_of_def map_eq_Cons_conv capitalize_Nil_iff js_split_singleton_Nil_iff)
qed

lemma known_model_find:
  "known_model s m =
     map_option snd (find (\<lambda>(key, v). js_includes (toLowerCase s) (toLowerCase key)) m)"
proof (induction m)
  case Nil
  then show ?case by simp
next
  case (Cons kv m)
  obtain key v where kv: "kv = (key, v)" by (cases kv)
  show ?case using Cons.IH by (simp add: kv)
qed

lemma first_alias_wins:
  assumes "find (\<lambda>(key, v). js_includes (toLowerCase s) (toLowerCase key)) modelMap = Some (key, v)"
  shows "getDisplayName s = v"
  using assms by (simp add: getDisplayName_def known_model_find)

section \<open>Effects and renders\<close>

lemma streaming_end_effect_fields:
  "isStreaming (streaming_end_effect s) = isStreaming s"
  "selectedModel (streaming_end_effect s) = selectedModel s"
  "currentResponse (streaming_end_effect s) = (if isStreaming s then currentResponse s else [])"
  "messages (streaming_end_effect s) =
     (if \<not> isStreaming s \<and> currentResponse s \<noteq> []
      then messages s @ [\<lparr>m_type = Assistant, m_content = currentResponse s, m_model = Some (selectedModel s)\<rparr>]
      else messages s)"
  "initialConnectionMade (streaming_end_effect s) = initialConnectionMade s"
  "sockets (streaming_end_effect s) = sockets s"
  "socketRef (streaming_end_effect s) = socketRef s"
  by (simp_all add: streaming_end_effect_def)

lemma streaming_end_effect_idle:
  "isStreaming s \<or> currentResponse s = [] \<Longrightarrow> streaming_end_effect s = s"
  by (auto simp: streaming_end_effect_def)

lemma close_if_open_fields:
  "isStreaming (close_if_open s) = isStreaming s"
  "selectedModel (close_if_open s) = selectedModel s"
  "currentResponse (close_if_open s) = currentResponse s"
  "messages (close_if_open s) = messages s"
  "initialConnectionMade (close_if_open s) = initialConnectionMade s"
  "socketRef (close_if_open s) = socketRef s"
  "length (sockets (close_if_open s)) = length (sockets s)"
  by (simp_all add: close_if_open_def split: option.split)

lemma connect_effect_fields:
  "isStreaming (connect_effect p s) = isStreaming s"
  "selectedModel (connect_effect p s) = selectedModel s"
  "currentResponse (connect_effect p s) = currentResponse s"
  "messages (connect_effect p s) = messages s"
  "initialConnectionMade (connect_effect p s) = initialConnectionMade s"
  by (simp_all add: connect_effect_def Let_def close_if_open_fields)

lemma rerender_same: "rerender s s = s"
  by (simp add: rerender_def)

lemma rerender_fields:
  "isStreaming (rerender p s) = isStreaming s"
  "selectedModel (rerender p s) = selectedModel s"
  "initialConnectionMade (rerender p s) = initialConnectionMade s"
  by (simp_all add: rerender_def Let_def connect_effect_fields streaming_end_effect_fields)

lemma rerender_currentResponse:
  "currentResponse (rerender p s) =
     (if (isStreaming s \<noteq> isStreaming p \<or> currentResponse s \<noteq> currentResponse p
            \<or> selectedModel s \<noteq> selectedModel p) \<and> \<not> isStreaming s
      then [] else currentResponse s)"
  by (simp add: rerender_def Let_def connect_effect_fields streaming_end_effect_fields)

lemma rerender_messages:
  "messages (rerender p s) =
     (if (isStreaming s \<noteq> isStreaming p \<or> currentResponse s \<noteq> currentResponse p
            \<or> selectedModel s \<noteq> selectedModel p) \<and> \<not> isStreaming s \<and> currentResponse s \<noteq> []
      then messages s @ [\<lparr>m_type = Assistant, m_content = currentResponse s, m_model = Some (selectedModel s)\<rparr>]
      else messages s)"
  by (simp add: rerender_def Let_def connect_effect_fields streaming_end_effect_fields)

text \<open>
  The updates an effect makes cause one more render. No effect changes the state in it, so
  the one render of \<open>dispatch\<close> is the whole reaction to an event.
\<close>

lemma rerender_quiescent: "rerender s1 (rerender s s1) = rerender s s1"
proof -
  let ?s2 = "rerender s s1"
  have "currentResponse ?s2 \<noteq> currentResponse s1 \<Longrightarrow> currentResponse ?s2 = []"
    by (auto simp: rerender_currentResponse split: if_splits)
  then have "currentResponse ?s2 \<noteq> currentResponse s1 \<Longrightarrow> streaming_end_effect ?s2 = ?s2"
    by (simp add: streaming_end_effect_idle)
  then show ?thesis
    by (simp add: rerender_def [of s1 ?s2] rerender_fields)
qed

section \<open>Trimming and renders without effect\<close>

lemma js_trim_Nil_iff: "js_trim s = [] \<longleftrightarrow> (\<forall>c\<in>set s. is_space c)"
proof
  assume t: "js_trim s = []"
  show "\<forall>c\<in>set s. is_space c"
  proof (rule ccontr)
    assume "\<not> (\<forall>c\<in>set s. is_space c)"
    then have ne: "dropWhile is_space s \<noteq> []" by (simp add: dropWhile_eq_Nil_conv)
    then have "\<not> is_space (hd (dropWhile is_space s))" by (rule hd_dropWhile)
    moreover from ne have "hd (dropWhile is_space s) \<in> set (rev (dropWhile is_space s))" by simp
    ultimately have "dropWhile is_space (rev (dropWhile is_space s)) \<noteq> []"
      by (metis dropWhile_eq_Nil_conv)
    with t show False by (simp add: js_trim_def)
  qed
next
  assume "\<forall>c\<in>set s. is_space c"
  then have e: "dropWhile is_space s = []" by simp
  show "js_trim s = []" by (simp only: js_trim_def e dropWhile.simps rev.simps)
qed



section \<open>The message handler\<close>

lemma frame_type_Some:
  "frame_type f = Some t \<longleftrightarrow> (\<exists>data. f = Some data \<and> \<not> nullish data \<and> js_prop data ''type'' = JStr t)"
proof (cases f)
  case None
  then show ?thesis by (simp add: frame_type_def)
next
  case (Some data)
  show ?thesis
  proof (cases "nullish data")
    case True
    then show ?thesis using Some by (auto simp: frame_type_def nullish_def)
  next
    case False
    then show ?thesis using Some by (auto simp: frame_type_def split: jsval.splits)
  qed
qed

lemma onmessage_stream_start:
  "frame_type f = Some ''stream_start'' \<Longrightarrow>
   onmessage f s = Some (s\<lparr>isStreaming := True, currentResponse := []\<rparr>)"
  by (auto simp: frame_type_Some onmessage_def)

lemma onmessage_stream:
  "frame_type f = Some ''stream'' \<Longrightarrow> frame_converts f \<Longrightarrow>
   onmessage f s = Some (s\<lparr>currentResponse := currentResponse s @ frame_text f\<rparr>)"
  by (auto simp: frame_type_Some onmessage_def frame_text_def frame_converts_def)

lemma onmessage_stream_end:
  "frame_type f = Some ''stream_end'' \<Longrightarrow> onmessage f s = Some (s\<lparr>isStreaming := False\<rparr>)"
  by (auto simp: frame_type_Some onmessage_def)

lemma onmessage_error:
  "frame_type f = Some ''error'' \<Longrightarrow> frame_converts f \<Longrightarrow>
   onmessage f s = Some (s\<lparr>isStreaming := False,
     messages := messages s @ [\<lparr>m_type = System, m_content = ''Error: '' @ frame_text f, m_model = None\<rparr>]\<rparr>)"
  by (auto simp: frame_type_Some onmessage_def frame_text_def frame_converts_def)

lemma onmessage_raises:
  "\<not> frame_converts f \<Longrightarrow> onmessage f s = None"
proof -
  assume a: "\<not> frame_converts f"
  then obtain data where f: "f = Some data"
    and t: "frame_type f = Some ''stream'' \<or> frame_type f = Some ''error''"
    and n: "js_to_string (js_prop data ''content'') = None"
    by (cases f) (auto simp: frame_converts_def)
  from t f have "\<not> nullish data"
    and "js_prop data ''type'' = JStr ''stream'' \<or> js_prop data ''type'' = JStr ''error''"
    by (auto simp: frame_type_Some)
  with n f show ?thesis by (auto simp: onmessage_def)
qed

lemma onmessage_converts: "frame_converts f \<Longrightarrow> onmessage f s \<noteq> None"
  by (cases f) (auto simp: onmessage_def frame_converts_def frame_type_def split: option.splits)

lemma onmessage_other:
  assumes "frame_type f \<noteq> Some ''stream_start''" "frame_type f \<noteq> Some ''stream''"
    "frame_type f \<noteq> Some ''stream_end''" "frame_type f \<noteq> Some ''error''"
  shows "onmessage f s = Some s \<or>
         onmessage f s = Some (s\<lparr>chatHistories := js_prop (the f) ''histories''\<rparr>)"
proof (cases f)
  case None
  then show ?thesis by (simp add: onmessage_def)
next
  case (Some data)
  show ?thesis
  proof (cases "nullish data")
    case True
    then show ?thesis using Some by (simp add: onmessage_def)
  next
    case False
    with assms Some have "js_prop data ''type'' \<noteq> JStr ''stream_start''"
      "js_prop data ''type'' \<noteq> JStr ''stream''" "js_prop data ''type'' \<noteq> JStr ''stream_end''"
      "js_prop data ''type'' \<noteq> JStr ''error''"
      by (simp_all add: frame_type_Some)
    with False Some show ?thesis by (simp add: onmessage_def)
  qed
qed

lemma frame_types:
  "frame_type stream_start_frame = Some ''stream_start''"
  "frame_type (stream_frame d) = Some ''stream''"
  "frame_type stream_end_frame = Some ''stream_end''"
  "frame_type (error_frame e) = Some ''error''"
  "frame_text (stream_frame d) = d"
  "frame_text (error_frame e) = e"
  "frame_converts (stream_frame d)"
  "frame_converts (error_frame e)"
  by (simp_all add: frame_type_def frame_text_def frame_converts_def stream_start_frame_def
        stream_frame_def stream_end_frame_def error_frame_def)

lemma run_append:
  "run (xs @ ys) s = (case run xs s of None \<Rightarrow> None | Some s' \<Rightarrow> run ys s')"
  by (induction xs arbitrary: s) (auto split: option.splits)

lemma run_snoc:
  "run xs s = Some s' \<Longrightarrow> run (xs @ [ev]) s = dispatch ev s'"
  by (simp add: run_append split: option.splits)

lemma dispatch_stream_start:
  assumes "frame_type f = Some ''stream_start''"
  shows "\<exists>s'. dispatch (SocketMessage f) s = Some s' \<and> isStreaming s' \<and> currentResponse s' = []
           \<and> messages s' = messages s \<and> selectedModel s' = selectedModel s"
  using assms
  by (simp add: dispatch_def onmessage_stream_start rerender_fields rerender_currentResponse
        rerender_messages)

lemma dispatch_stream_streaming:
  assumes "frame_type f = Some ''stream''" and "frame_converts f" and "isStreaming s"
  shows "\<exists>s'. dispatch (SocketMessage f) s = Some s' \<and> isStreaming s'
           \<and> currentResponse s' = currentResponse s @ frame_text f
           \<and> messages s' = messages s \<and> selectedModel s' = selectedModel s"
  using assms
  by (simp add: dispatch_def onmessage_stream rerender_fields rerender_currentResponse
        rerender_messages)

lemma dispatch_stream_idle:
  assumes "frame_type f = Some ''stream''" and "frame_converts f"
    and "\<not> isStreaming s" and "currentResponse s = []"
  shows "\<exists>s'. dispatch (SocketMessage f) s = Some s' \<and> \<not> isStreaming s' \<and> currentResponse s' = []"
  using assms
  by (simp add: dispatch_def onmessage_stream rerender_fields rerender_currentResponse)

lemma dispatch_stream_end:
  assumes "frame_type f = Some ''stream_end''" and "isStreaming s \<or> currentResponse s = []"
  shows "\<exists>s'. dispatch (SocketMessage f) s = Some s' \<and> \<not> isStreaming s' \<and> currentResponse s' = []
           \<and> messages s' =
               (if currentResponse s \<noteq> []
                then messages s @ [\<lparr>m_type = Assistant, m_content = currentResponse s,
                                   m_model = Some (selectedModel s)\<rparr>]
                else messages s)"
  using assms
  by (auto simp add: dispatch_def onmessage_stream_end rerender_fields rerender_currentResponse
        rerender_messages)

lemma dispatch_error:
  assumes "frame_type f = Some ''error''" and "frame_converts f"
    and "isStreaming s \<or> currentResponse s = []"
  shows "\<exists>s'. dispatch (SocketMessage f) s = Some s' \<and> \<not> isStreaming s' \<and> currentResponse s' = []
           \<and> messages s' =
               messages s @ [\<lparr>m_type = System, m_content = ''Error: '' @ frame_text f, m_model = None\<rparr>]
                 @ (if currentResponse s \<noteq> []
                    then [\<lparr>m_type = Assistant, m_content = currentResponse s,
                           m_model = Some (selectedModel s)\<rparr>]
                    else [])"
  using assms
  by (auto simp add: dispatch_def onmessage_error rerender_fields rerender_currentResponse
        rerender_messages)

lemma dispatch_other:
  assumes "frame_type f \<noteq> Some ''stream_start''" "frame_type f \<noteq> Some ''stream''"
    "frame_type f \<noteq> Some ''stream_end''" "frame_type f \<noteq> Some ''error''"
    and "isStreaming s \<or> currentResponse s = []"
  shows "\<exists>s'. dispatch (SocketMessage f) s = Some s' \<and> isStreaming s' = isStreaming s
           \<and> currentResponse s' = currentResponse s"
  using onmessage_other [OF assms(1-4), of s] assms(5)
  by (auto simp add: dispatch_def rerender_fields rerender_currentResponse)

lemma dispatch_raises: "\<not> frame_converts f \<Longrightarrow> dispatch (SocketMessage f) s = None"
  by (simp add: dispatch_def onmessage_raises)

lemma run_stream_frames:
  "isStreaming s \<Longrightarrow>
   \<exists>s'. run (map (\<lambda>d. SocketMessage (stream_frame d)) ds) s = Some s' \<and> isStreaming s' \<and>
     currentResponse s' = currentResponse s @ concat ds \<and> messages s' = messages s \<and>
     selectedModel s' = selectedModel s"
proof (induction ds arbitrary: s)
  case Nil
  then show ?case by simp
next
  case (Cons d ds)
  have ft: "frame_type (stream_frame d) = Some ''stream''" "frame_converts (stream_frame d)"
    by (simp_all add: frame_types)
  from dispatch_stream_streaming [OF ft Cons.prems]
  obtain s1 where s1: "dispatch (SocketMessage (stream_frame d)) s = Some s1" "isStreaming s1"
    "currentResponse s1 = currentResponse s @ d" "messages s1 = messages s"
    "selectedModel s1 = selectedModel s"
    by (auto simp: frame_types)
  from Cons.IH [OF s1(2)] s1 show ?case by auto
qed

lemma run_stream_events:
  "\<exists>s'. run (stream_events ds) s = Some s' \<and> \<not> isStreaming s' \<and> currentResponse s' = [] \<and>
     messages s' =
       (if concat ds \<noteq> []
        then messages s @ [\<lparr>m_type = Assistant, m_content = concat ds, m_model = Some (selectedModel s)\<rparr>]
        else messages s)"
proof -
  have ft: "frame_type stream_start_frame = Some ''stream_start''"
    "frame_type stream_end_frame = Some ''stream_end''" by (simp_all add: frame_types)
  from dispatch_stream_start [OF ft(1), of s]
  obtain s1 where s1: "dispatch (SocketMessage stream_start_frame) s = Some s1" "isStreaming s1"
    "currentResponse s1 = []" "messages s1 = messages s" "selectedModel s1 = selectedModel s"
    by auto
  from run_stream_frames [OF s1(2), of ds]
  obtain s2 where s2: "run (map (\<lambda>d. SocketMessage (stream_frame d)) ds) s1 = Some s2"
    "isStreaming s2" "currentResponse s2 = concat ds" "messages s2 = messages s"
    "selectedModel s2 = selectedModel s"
    using s1 by auto
  have r: "run (stream_events ds) s = dispatch (SocketMessage stream_end_frame) s2"
    using s1(1) s2(1) by (simp add: stream_events_def run_append split: option.splits)
  have pre: "isStreaming s2 \<or> currentResponse s2 = []" using s2(2) by simp
  from dispatch_stream_end [OF ft(2) pre] s2 show ?thesis unfolding r by auto
qed

section \<open>The open window\<close>

lemma after_last_start_snoc:
  "after_last_start (fs @ [f]) =
     (if frame_type f = Some ''stream_start'' then [] else after_last_start fs @ [f])"
  by (simp add: after_last_start_def)

lemma open_window_snoc:
  "open_window (fs @ [f]) =
     (if frame_type f = Some ''stream_start'' then Some []
      else if frame_type f = Some ''stream_end'' \<or> frame_type f = Some ''error'' then None
      else map_option (\<lambda>w. w @ [f]) (open_window fs))"
  by (auto simp add: open_window_def after_last_start_snoc)

lemma window_text_snoc:
  "window_text (fs @ [f]) =
     (if frame_type f = Some ''stream_start'' then []
      else if frame_type f = Some ''stream_end'' \<or> frame_type f = Some ''error'' then []
      else if open_window fs = None then []
      else if frame_type f = Some ''stream'' then window_text fs @ frame_text f
      else window_text fs)"
  by (auto simp add: window_text_def open_window_snoc split: option.splits)

lemma open_window_Nil: "open_window [] = None" "window_text [] = []"
  by (simp_all add: open_window_def window_text_def)

lemma window_closed_text: "open_window fs = None \<Longrightarrow> window_text fs = []"
  by (simp add: window_text_def)

lemma run_frames_window:
  assumes "\<not> isStreaming s" and "currentResponse s = []"
  shows "\<forall>f\<in>set fs. frame_converts f \<Longrightarrow>
         \<exists>s'. run (map SocketMessage fs) s = Some s' \<and>
           isStreaming s' = (open_window fs \<noteq> None) \<and> currentResponse s' = window_text fs"
proof (induction fs rule: rev_induct)
  case Nil
  then show ?case using assms by (simp add: open_window_Nil)
next
  case (snoc f fs)
  from snoc obtain t where t: "run (map SocketMessage fs) s = Some t"
    and st: "isStreaming t = (open_window fs \<noteq> None)"
    and cr: "currentResponse t = window_text fs" by auto
  from snoc.prems have cv: "frame_converts f" by simp
  have r: "run (map SocketMessage (fs @ [f])) s = dispatch (SocketMessage f) t"
    using run_snoc [OF t] by simp
  have settled: "isStreaming t \<or> currentResponse t = []"
    using st cr window_closed_text [of fs] by auto
  consider (start) "frame_type f = Some ''stream_start''"
    | (stream) "frame_type f = Some ''stream''"
    | (fin) "frame_type f = Some ''stream_end''"
    | (err) "frame_type f = Some ''error''"
    | (other) "frame_type f \<noteq> Some ''stream_start''" "frame_type f \<noteq> Some ''stream''"
        "frame_type f \<noteq> Some ''stream_end''" "frame_type f \<noteq> Some ''error''"
    by blast
  then show ?case
  proof cases
    case start
    then show ?thesis
      unfolding r using dispatch_stream_start [OF start, of t]
      by (auto simp add: open_window_snoc window_text_snoc)
  next
    case stream
    show ?thesis
    proof (cases "isStreaming t")
      case True
      then show ?thesis
        unfolding r using dispatch_stream_streaming [OF stream cv True] st cr stream
        by (auto simp add: open_window_snoc window_text_snoc)
    next
      case False
      with settled have e: "currentResponse t = []" by simp
      show ?thesis
        unfolding r using dispatch_stream_idle [OF stream cv False e] st False stream
        by (auto simp add: open_window_snoc window_text_snoc)
    qed
  next
    case fin
    then show ?thesis
      unfolding r using dispatch_stream_end [OF fin settled]
      by (auto simp add: open_window_snoc window_text_snoc)
  next
    case err
    then show ?thesis
      unfolding r using dispatch_error [OF err cv settled]
      by (auto simp add: open_window_snoc window_text_snoc)
  next
    case other
    then show ?thesis
      unfolding r using dispatch_other [OF other settled] st cr
      by (auto simp add: open_window_snoc window_text_snoc window_closed_text)
  qed
qed

lemma run_frames_raise:
  "\<exists>f\<in>set fs. \<not> frame_converts f \<Longrightarrow> run (map SocketMessage fs) s = None"
proof (induction fs arbitrary: s)
  case Nil
  then show ?case by simp
next
  case (Cons f fs)
  show ?case
  proof (cases "frame_converts f")
    case True
    with Cons.prems have "\<exists>f\<in>set fs. \<not> frame_converts f" by simp
    then show ?thesis using Cons.IH by (simp split: option.splits)
  next
    case False
    then show ?thesis by (simp add: dispatch_raises)
  qed
qed

section \<open>Sessions, selecting and opening\<close>

text \<open>The four sessions are states the component reaches from its initial state.\<close>

lemma sessions_reached:
  "dispatch (ModelsFetched (ModelList [''gemma2:2b'', ''mistral:latest''])) initial_state
     = Some awaiting_open"
  "dispatch (SocketOpen 0) awaiting_open = Some connected_idle"
  "run [InputChange ''hi'', Submit, SocketMessage stream_start_frame,
        SocketMessage (stream_frame ''par'')] connected_idle = Some mid_stream"
  "dispatch (ModelChange ''gemma2:2b'') connected_idle = Some second_model_selected"
  by code_simp+



section \<open>The claims\<close>

subsection \<open>The socket protocol\<close>

text \<open>
  Claim C1, as the code has it. An \<^verbatim>\<open>error\<close> frame with content \<open>e\<close> that arrives in
  state Connected/Streaming with a non-empty buffer appends exactly one system message
  \<open>Error: e\<close> and ends the streaming state. The render that follows runs the effect for the
  end of streaming, which appends the partial buffer as an assistant message tagged with the
  selected model, after the system message, and clears the buffer. So the partial buffer does
  reach the history.
\<close>

theorem error_frame_mid_stream:
  assumes "isStreaming s" and "currentResponse s \<noteq> []"
  shows "map_option messages (dispatch (SocketMessage (error_frame e)) s) =
           Some (messages s @
             [\<lparr>m_type = System, m_content = ''Error: '' @ e, m_model = None\<rparr>,
              \<lparr>m_type = Assistant, m_content = currentResponse s, m_model = Some (selectedModel s)\<rparr>])
         \<and> map_option isStreaming (dispatch (SocketMessage (error_frame e)) s) = Some False
         \<and> map_option currentResponse (dispatch (SocketMessage (error_frame e)) s) = Some []"
proof -
  have ft: "frame_type (error_frame e) = Some ''error''" "frame_converts (error_frame e)"
    by (simp_all add: frame_types)
  from assms have pre: "isStreaming s \<or> currentResponse s = []" by simp
  from dispatch_error [OF ft pre] assms show ?thesis by (auto simp: frame_types)
qed

text \<open>The session in mid-stream receives \<^verbatim>\<open>error\<close> with \<open>overloaded\<close>.\<close>

theorem error_frame_mid_stream_witness:
  "isStreaming mid_stream \<and> currentResponse mid_stream \<noteq> [] \<and>
   map_option messages (dispatch (SocketMessage (error_frame ''overloaded'')) mid_stream) =
     Some (messages mid_stream @
       [\<lparr>m_type = System, m_content = ''Error: overloaded'', m_model = None\<rparr>,
        \<lparr>m_type = Assistant, m_content = ''par'', m_model = Some ''mistral:latest''\<rparr>])"
proof -
  have a: "isStreaming mid_stream" by code_simp
  have b: "currentResponse mid_stream \<noteq> []" by code_simp
  have c: "currentResponse mid_stream = ''par''" "selectedModel mid_stream = ''mistral:latest''"
    by code_simp+
  from error_frame_mid_stream [OF a b, of "''overloaded''"]
  have "map_option messages (dispatch (SocketMessage (error_frame ''overloaded'')) mid_stream) =
     Some (messages mid_stream @
       [\<lparr>m_type = System, m_content = ''Error: overloaded'', m_model = None\<rparr>,
        \<lparr>m_type = Assistant, m_content = ''par'', m_model = Some ''mistral:latest''\<rparr>])"
    unfolding c by simp
  with a b show ?thesis by (intro conjI)
qed

text \<open>The same history, computed: the partial text \<open>par\<close> is its last message.\<close>

theorem error_frame_keeps_partial_buffer_counterexample:
  "isStreaming mid_stream \<and> currentResponse mid_stream = ''par'' \<and>
   map_option messages (dispatch (SocketMessage (error_frame ''overloaded'')) mid_stream) =
     Some
      [\<lparr>m_type = Assistant, m_content = ''Hello there! I am Mistral. How can I assist you today?'',
         m_model = Some ''mistral:latest''\<rparr>,
       \<lparr>m_type = User, m_content = ''hi'', m_model = None\<rparr>,
       \<lparr>m_type = System, m_content = ''Error: overloaded'', m_model = None\<rparr>,
       \<lparr>m_type = Assistant, m_content = ''par'', m_model = Some ''mistral:latest''\<rparr>]"
  by code_simp

text \<open>
  Claim C2, with the closed window made explicit. Take an idle session with an empty buffer
  and any sequence of inbound frames in which the content of every \<^verbatim>\<open>stream\<close> and
  \<^verbatim>\<open>error\<close> frame can be converted to a string. After the sequence the buffer is the text
  of the open window: the concatenation, in arrival order, of the \<^verbatim>\<open>stream\<close> frames
  after the most recent \<^verbatim>\<open>stream_start\<close> when no \<^verbatim>\<open>stream_end\<close> or \<^verbatim>\<open>error\<close> has
  arrived since, and empty otherwise. Deltas outside a window, frames that do not parse and
  frames of another type add nothing to it.
\<close>

theorem buffer_is_text_of_open_window:
  assumes "\<not> isStreaming s" and "currentResponse s = []"
    and "\<forall>f\<in>set fs. frame_converts f"
  shows "map_option currentResponse (run (map SocketMessage fs) s) = Some (window_text fs)"
  using run_frames_window [OF assms] by auto

text \<open>A delta before the window, then a window with two deltas and a payload that does not parse.\<close>

theorem buffer_is_text_of_open_window_witness:
  "\<not> isStreaming connected_idle \<and> currentResponse connected_idle = [] \<and>
   frame_converts (stream_frame ''x'') \<and> frame_converts stream_start_frame \<and>
   frame_converts (stream_frame ''Hel'') \<and> frame_converts None \<and>
   frame_converts (stream_frame ''lo'') \<and>
   map_option currentResponse (run (map SocketMessage
      [stream_frame ''x'', stream_start_frame, stream_frame ''Hel'', None, stream_frame ''lo''])
      connected_idle) = Some ''Hello''"
proof -
  have a: "\<not> isStreaming connected_idle" by code_simp
  have b: "currentResponse connected_idle = []" by code_simp
  have c: "frame_converts (stream_frame ''x'')" "frame_converts stream_start_frame"
    "frame_converts (stream_frame ''Hel'')" "frame_converts None"
    "frame_converts (stream_frame ''lo'')" by code_simp+
  have d: "\<forall>f\<in>set [stream_frame ''x'', stream_start_frame, stream_frame ''Hel'', None,
             stream_frame ''lo'']. frame_converts f"
    using c by simp
  have w: "window_text [stream_frame ''x'', stream_start_frame, stream_frame ''Hel'', None,
             stream_frame ''lo''] = ''Hello''"
    by code_simp
  show ?thesis
    by (intro conjI a b c)
       (simp only: buffer_is_text_of_open_window [OF a b d] w)
qed

text \<open>After \<^verbatim>\<open>stream_end\<close> the buffer is empty, where the words of the specification give \<open>a\<close>.\<close>

theorem buffer_after_stream_end_counterexample:
  "claimed_window_text [stream_start_frame, stream_frame ''a'', stream_end_frame] = ''a'' \<and>
   map_option currentResponse
     (run (map SocketMessage [stream_start_frame, stream_frame ''a'', stream_end_frame])
        connected_idle) = Some []"
  by code_simp

text \<open>
  Claim C4. From any state, the frames \<^verbatim>\<open>stream_start\<close>, \<^verbatim>\<open>stream\<close> with \<open>d1\<close> to
  \<open>dn\<close>, \<^verbatim>\<open>stream_end\<close>, with a non-empty concatenation, append exactly one assistant
  message whose content is that concatenation and whose model is the selected one; the
  buffer is empty and the streaming state idle afterwards.
\<close>

theorem stream_finalized_into_one_assistant_message:
  assumes "concat ds \<noteq> []"
  shows "map_option messages (run (stream_events ds) s) =
           Some (messages s @
             [\<lparr>m_type = Assistant, m_content = concat ds, m_model = Some (selectedModel s)\<rparr>])
         \<and> map_option currentResponse (run (stream_events ds) s) = Some []
         \<and> map_option isStreaming (run (stream_events ds) s) = Some False"
  using assms run_stream_events [of ds s] by auto

text \<open>The example of the specification, on \<^verbatim>\<open>mistral:latest\<close>.\<close>

theorem stream_finalized_into_one_assistant_message_witness:
  "concat [''Hel'', ''lo''] \<noteq> [] \<and>
   map_option messages (run (stream_events [''Hel'', ''lo'']) connected_idle) =
     Some (messages connected_idle @
       [\<lparr>m_type = Assistant, m_content = ''Hello'', m_model = Some ''mistral:latest''\<rparr>])"
proof -
  have a: "concat [''Hel'', ''lo''] \<noteq> []" by simp
  have c: "concat [''Hel'', ''lo''] = ''Hello''" "selectedModel connected_idle = ''mistral:latest''"
    by code_simp+
  from stream_finalized_into_one_assistant_message [OF a, of connected_idle]
  have "map_option messages (run (stream_events [''Hel'', ''lo'']) connected_idle) =
     Some (messages connected_idle @
       [\<lparr>m_type = Assistant, m_content = ''Hello'', m_model = Some ''mistral:latest''\<rparr>])"
    unfolding c by simp
  with a show ?thesis by (intro conjI)
qed

text \<open>
  Claim C9. A frame whose payload does not parse leaves the whole state as it is, in every
  state; so does the payload \<^verbatim>\<open>null\<close>, which parses and then fails at \<^verbatim>\<open>data.type\<close>
  inside the same \<^verbatim>\<open>try\<close>.
\<close>

theorem unparseable_frame_ignored:
  "dispatch (SocketMessage None) s = Some s \<and> dispatch (SocketMessage (Some JNull)) s = Some s"
  by (simp add: dispatch_def onmessage_def nullish_def rerender_same)

text \<open>In mid-stream.\<close>

theorem unparseable_frame_ignored_witness:
  "dispatch (SocketMessage None) mid_stream = Some mid_stream"
  using unparseable_frame_ignored [of mid_stream] by (rule conjunct1)

text \<open>
  Claim C10. A \<^verbatim>\<open>stream_end\<close> that arrives while the buffer is empty appends nothing, an
  \<^verbatim>\<open>error\<close> that arrives then appends its system message and no assistant message, and
  a whole reply whose deltas concatenate to the empty string, from any state, leaves the
  history as it was.
\<close>

theorem empty_buffer_not_finalized:
  "(currentResponse s = [] \<longrightarrow>
      map_option messages (dispatch (SocketMessage stream_end_frame) s) = Some (messages s) \<and>
      map_option messages (dispatch (SocketMessage (error_frame e)) s) =
        Some (messages s @ [\<lparr>m_type = System, m_content = ''Error: '' @ e, m_model = None\<rparr>])) \<and>
   (concat ds = [] \<longrightarrow> map_option messages (run (stream_events ds) s) = Some (messages s))"
proof -
  have ft: "frame_type stream_end_frame = Some ''stream_end''"
    "frame_type (error_frame e) = Some ''error''" "frame_converts (error_frame e)"
    by (simp_all add: frame_types)
  have "currentResponse s = [] \<Longrightarrow>
      map_option messages (dispatch (SocketMessage stream_end_frame) s) = Some (messages s)"
    using dispatch_stream_end [OF ft(1), of s] by auto
  moreover have "currentResponse s = [] \<Longrightarrow>
      map_option messages (dispatch (SocketMessage (error_frame e)) s) =
        Some (messages s @ [\<lparr>m_type = System, m_content = ''Error: '' @ e, m_model = None\<rparr>])"
    using dispatch_error [OF ft(2,3), of s] by (auto simp: frame_types)
  moreover have "concat ds = [] \<Longrightarrow>
      map_option messages (run (stream_events ds) s) = Some (messages s)"
    using run_stream_events [of ds s] by auto
  ultimately show ?thesis by simp
qed

text \<open>An idle session, and a reply of two empty deltas.\<close>

theorem empty_buffer_not_finalized_witness:
  "currentResponse connected_idle = [] \<and>
   map_option messages (dispatch (SocketMessage stream_end_frame) connected_idle) =
     Some (messages connected_idle) \<and>
   concat [[], []] = ([] :: string) \<and>
   map_option messages (run (stream_events [[], []]) connected_idle) = Some (messages connected_idle)"
proof -
  have a: "currentResponse connected_idle = []" by code_simp
  have b: "concat [[], []] = ([] :: string)" by simp
  note t = empty_buffer_not_finalized [of connected_idle "[]" "[[], []]"]
  from t a have c: "map_option messages (dispatch (SocketMessage stream_end_frame) connected_idle) =
     Some (messages connected_idle)"
    by (simp only: simp_thms)
  from t b have d: "map_option messages (run (stream_events [[], []]) connected_idle) =
     Some (messages connected_idle)"
    by (simp only: simp_thms)
  show ?thesis by (intro conjI a b c d)
qed

subsection \<open>Selecting, fetching, submitting\<close>






text \<open>
  Claim C8. When the input is empty or only white space, or the session is disconnected, or a
  reply is streaming, submitting leaves the whole state as it is: the history, the frames sent
  on every socket, the input.
\<close>

theorem rejected_submit_is_noop:
  assumes "(\<forall>c\<in>set (inputMessage s). is_space c) \<or> \<not> isConnected s \<or> isStreaming s"
  shows "dispatch Submit s = Some s"
  using assms by (simp add: dispatch_def handleSendMessage_def js_trim_Nil_iff rerender_same)

text \<open>A connected session whose input is a no-break space, a space and a tab; a session in mid-stream and a disconnected one, each with text to send.\<close>

theorem rejected_submit_is_noop_witness:
  "is_space (CHR 0xA0) \<and> is_space (CHR '' '') \<and> is_space (CHR 0x09) \<and>
   isConnected (connected_idle\<lparr>inputMessage := [CHR 0xA0, CHR '' '', CHR 0x09]\<rparr>) \<and>
   \<not> isStreaming (connected_idle\<lparr>inputMessage := [CHR 0xA0, CHR '' '', CHR 0x09]\<rparr>) \<and>
   dispatch Submit (connected_idle\<lparr>inputMessage := [CHR 0xA0, CHR '' '', CHR 0x09]\<rparr>) =
     Some (connected_idle\<lparr>inputMessage := [CHR 0xA0, CHR '' '', CHR 0x09]\<rparr>) \<and>
   isStreaming (mid_stream\<lparr>inputMessage := ''more''\<rparr>) \<and>
   isConnected (mid_stream\<lparr>inputMessage := ''more''\<rparr>) \<and>
   dispatch Submit (mid_stream\<lparr>inputMessage := ''more''\<rparr>) =
     Some (mid_stream\<lparr>inputMessage := ''more''\<rparr>) \<and>
   \<not> isConnected (initial_state\<lparr>inputMessage := ''hi''\<rparr>) \<and>
   dispatch Submit (initial_state\<lparr>inputMessage := ''hi''\<rparr>) =
     Some (initial_state\<lparr>inputMessage := ''hi''\<rparr>)"
proof -
  let ?w = "connected_idle\<lparr>inputMessage := [CHR 0xA0, CHR '' '', CHR 0x09]\<rparr>"
  let ?m = "mid_stream\<lparr>inputMessage := ''more''\<rparr>"
  let ?d = "initial_state\<lparr>inputMessage := ''hi''\<rparr>"
  have sp: "is_space (CHR 0xA0)" "is_space (CHR '' '')" "is_space (CHR 0x09)" by code_simp+
  have a: "isConnected ?w" "\<not> isStreaming ?w" by code_simp+
  have b: "\<forall>c\<in>set (inputMessage ?w). is_space c" using sp by simp
  have c: "isStreaming ?m" "isConnected ?m" by code_simp+
  have d: "\<not> isConnected ?d" by code_simp
  show ?thesis
    by (intro conjI sp a c d rejected_submit_is_noop disjI1 [OF b] disjI2 [OF disjI2, OF c(1)]
          disjI2 [OF disjI1, OF d])
qed

subsection \<open>Display names\<close>

text \<open>
  Claim C5, with the empty case and the order of the table stated. An input whose lowercased
  form is a key of the alias table gets that key's display name, whatever its casing. More
  generally an input whose lowercased form contains a key gets the display name of the first
  such key in the order of the table. An unmapped input, one that contains no key, gets a
  string of letters, digits and single spaces whose words are title-cased, and that string is
  empty exactly when the input has nothing before its first colon. The two examples of the
  specification hold. As a function of HOL, \<open>getDisplayName\<close> is total and deterministic.
\<close>

theorem getDisplayName_aliases_and_title_case:
  "(\<forall>(key, v)\<in>set modelMap. toLowerCase s = key \<longrightarrow> getDisplayName s = v) \<and>
   (\<forall>key v. find (\<lambda>(key, v). js_includes (toLowerCase s) (toLowerCase key)) modelMap
               = Some (key, v) \<longrightarrow> getDisplayName s = v) \<and>
   (unmapped s \<longrightarrow>
      (\<forall>c\<in>set (getDisplayName s). is_alnum c \<or> c = CHR '' '') \<and>
      (\<forall>w\<in>set (js_split (\<lambda>c. c = CHR '' '') (getDisplayName s)). title_cased w) \<and>
      (getDisplayName s = [] \<longleftrightarrow> takeWhile (\<lambda>c. c \<noteq> CHR '':'') s = [])) \<and>
   getDisplayName ''gemma2:2b'' = ''Gemma 2'' \<and>
   getDisplayName ''custom-model:7b'' = ''Custom Model''"
proof -
  have ex: "getDisplayName ''gemma2:2b'' = ''Gemma 2''" "getDisplayName ''custom-model:7b'' = ''Custom Model''"
    by code_simp+
  show ?thesis
    using alias_any_case [of s] unmapped_shape [of s] first_alias_wins [of s] ex by blast
qed

text \<open>An alias in capitals, an input that contains an alias, and the unmapped example.\<close>

theorem getDisplayName_aliases_and_title_case_witness:
  "toLowerCase ''GEMMA2:2b'' = ''gemma2:2b'' \<and> getDisplayName ''GEMMA2:2b'' = ''Gemma 2'' \<and>
   find (\<lambda>(key, v). js_includes (toLowerCase ''xx-MISTRAL:LATEST-q4'') (toLowerCase key)) modelMap
     = Some (''mistral:latest'', ''Mistral'') \<and>
   getDisplayName ''xx-MISTRAL:LATEST-q4'' = ''Mistral'' \<and>
   unmapped ''custom-model:7b'' \<and> title_cased ''Custom'' \<and> title_cased ''Model''"
proof -
  have l: "toLowerCase ''GEMMA2:2b'' = ''gemma2:2b''" by code_simp
  have u: "unmapped ''custom-model:7b''" by code_simp
  have m: "(''gemma2:2b'', ''Gemma 2'') \<in> set modelMap" by (simp add: modelMap_def)
  have f: "find (\<lambda>(key, v). js_includes (toLowerCase ''xx-MISTRAL:LATEST-q4'') (toLowerCase key)) modelMap
     = Some (''mistral:latest'', ''Mistral'')" by code_simp
  have sp: "js_split (\<lambda>c. c = CHR '' '') (getDisplayName ''custom-model:7b'') = [''Custom'', ''Model'']"
    by code_simp
  have a: "getDisplayName ''GEMMA2:2b'' = ''Gemma 2''"
    using getDisplayName_aliases_and_title_case
            [of "''GEMMA2:2b''", THEN conjunct1, THEN bspec, OF m] l
    by simp
  have b: "getDisplayName ''xx-MISTRAL:LATEST-q4'' = ''Mistral''"
    by (rule getDisplayName_aliases_and_title_case
            [of "''xx-MISTRAL:LATEST-q4''", THEN conjunct2, THEN conjunct1, THEN spec, THEN spec,
             THEN mp, OF f])
  have "\<forall>w\<in>set (js_split (\<lambda>c. c = CHR '' '') (getDisplayName ''custom-model:7b'')). title_cased w"
    using getDisplayName_aliases_and_title_case
            [of "''custom-model:7b''", THEN conjunct2, THEN conjunct2, THEN conjunct1, THEN mp, OF u]
    by (rule conjunct2 [THEN conjunct1])
  then have t: "title_cased ''Custom''" "title_cased ''Model''"
    unfolding sp by simp_all
  show ?thesis
    by (intro conjI) (rule l a f b u t)+
qed

text \<open>The empty identifier is unmapped and has the empty display name; an input that contains two aliases gets the name of the one that is first in the table.\<close>

theorem getDisplayName_empty_or_two_aliases_counterexample:
  "unmapped '''' \<and> getDisplayName '''' = '''' \<and>
   js_includes (toLowerCase ''gemma2:2b-mistral:latest'') (toLowerCase ''gemma2:2b'') \<and>
   getDisplayName ''gemma2:2b-mistral:latest'' = ''Mistral''"
  by code_simp

text \<open>
  Claim C6, restricted. \<open>getDisplayName\<close> applied twice gives what it gives once, for every
  input whose display name is neither \<open>DeepSeek R1\<close> nor \<open>Llama 3.2\<close>, the two entries of the
  alias table that the formatting branch does not leave as they are.
\<close>

theorem getDisplayName_idempotent_off_two_aliases:
  assumes "getDisplayName s \<noteq> ''DeepSeek R1''" and "getDisplayName s \<noteq> ''Llama 3.2''"
  shows "getDisplayName (getDisplayName s) = getDisplayName s"
proof (cases "known_model s modelMap")
  case None
  then show ?thesis by (simp add: getDisplayName_unmapped fallback_fixed)
next
  case (Some v)
  then have g: "getDisplayName s = v" by (simp add: getDisplayName_def)
  from Some have "v \<in> snd ` set modelMap" by (rule known_model_range)
  with assms g have "v = ''Mistral'' \<or> v = ''Gemma 2''" by (auto simp: modelMap_def)
  moreover have "getDisplayName ''Mistral'' = ''Mistral''" "getDisplayName ''Gemma 2'' = ''Gemma 2''"
    by code_simp+
  ultimately show ?thesis using g by auto
qed

text \<open>The unmapped example.\<close>

theorem getDisplayName_idempotent_off_two_aliases_witness:
  "getDisplayName ''custom-model:7b'' \<noteq> ''DeepSeek R1'' \<and>
   getDisplayName ''custom-model:7b'' \<noteq> ''Llama 3.2'' \<and>
   getDisplayName (getDisplayName ''custom-model:7b'') = getDisplayName ''custom-model:7b''"
proof -
  have a: "getDisplayName ''custom-model:7b'' \<noteq> ''DeepSeek R1''" by code_simp
  have b: "getDisplayName ''custom-model:7b'' \<noteq> ''Llama 3.2''" by code_simp
  show ?thesis
    by (intro conjI) (rule a b getDisplayName_idempotent_off_two_aliases [OF a b])+
qed

text \<open>The display name of \<^verbatim>\<open>deepseek-r1:latest\<close> is not a fixed point.\<close>

theorem getDisplayName_not_idempotent_counterexample:
  "getDisplayName (getDisplayName ''deepseek-r1:latest'') = ''Deepseek R1'' \<and>
   getDisplayName ''deepseek-r1:latest'' = ''DeepSeek R1'' \<and>
   getDisplayName (getDisplayName ''deepseek-r1:latest'') \<noteq> getDisplayName ''deepseek-r1:latest''"
  by code_simp

end
